theory Spec2Isabelle
  imports Complex_Main "HOL-Library.Multiset"
begin

section \<open>Configuration (app.py, lines 13--29)\<close>

text \<open>
  Paths are written relative to the application directory \<open>BASE_DIR\<close>; the
  \<open>FULL_*\<close> constants of the source are the same paths prefixed by \<open>BASE_DIR\<close>.
\<close>

definition UPLOAD_FOLDER :: string where
  "UPLOAD_FOLDER = ''uploads''"

definition BEFORE_FOLDER_NAME :: string where
  "BEFORE_FOLDER_NAME = ''before''"

definition AFTER_FOLDER_NAME :: string where
  "AFTER_FOLDER_NAME = ''after''"

definition ALLOWED_EXTENSIONS :: "string set" where
  "ALLOWED_EXTENSIONS = {''png'', ''jpg'', ''jpeg'', ''webp''}"


definition FULL_BEFORE_FOLDER :: string where
  "FULL_BEFORE_FOLDER = ''database/images/before''"

definition FULL_AFTER_FOLDER :: string where
  "FULL_AFTER_FOLDER = ''database/images/after''"

section \<open>Path and string helpers of the Python library\<close>

text \<open>\<open>str.lower\<close> on the ASCII letters; a \<open>char\<close> is one byte.\<close>

definition lower_char :: "char \<Rightarrow> char" where
  "lower_char c =
     (case map_of (zip ''ABCDEFGHIJKLMNOPQRSTUVWXYZ'' ''abcdefghijklmnopqrstuvwxyz'') c of
        Some l \<Rightarrow> l
      | None \<Rightarrow> c)"

definition lower :: "string \<Rightarrow> string" where
  "lower s = map lower_char s"

text \<open>The part of \<open>s\<close> after its last occurrence of \<open>c\<close> (all of \<open>s\<close> when there is none).\<close>

definition after_last :: "char \<Rightarrow> string \<Rightarrow> string" where
  "after_last c s = rev (takeWhile (\<lambda>x. x \<noteq> c) (rev s))"

text \<open>The part of \<open>s\<close> before its last occurrence of \<open>c\<close>, for \<open>s\<close> containing \<open>c\<close>.\<close>

definition before_last :: "char \<Rightarrow> string \<Rightarrow> string" where
  "before_last c s = rev (tl (dropWhile (\<lambda>x. x \<noteq> c) (rev s)))"

text \<open>\<open>os.path.basename\<close> (posixpath): \<open>p[p.rfind('/') + 1:]\<close>.\<close>

definition basename :: "string \<Rightarrow> string" where
  "basename p = after_last CHR ''/'' p"

text \<open>\<open>os.path.join\<close> (posixpath) of two components.\<close>

definition path_join :: "string \<Rightarrow> string \<Rightarrow> string" where
  "path_join a b =
     (if b \<noteq> [] \<and> hd b = CHR ''/'' then b
      else if a = [] \<or> last a = CHR ''/'' then a @ b
      else a @ ''/'' @ b)"

text \<open>
  \<open>os.path.splitext\<close> (posixpath): the extension starts at the last dot of the last
  path component, unless that component has only dots before it; the root is the rest.
\<close>

definition splitext :: "string \<Rightarrow> string \<times> string" where
  "splitext p =
     (let comp = basename p; dir = take (length p - length comp) p in
      if CHR ''.'' \<in> set comp \<and> (\<exists>x \<in> set (before_last CHR ''.'' comp). x \<noteq> CHR ''.'')
      then (dir @ before_last CHR ''.'' comp, CHR ''.'' # after_last CHR ''.'' comp)
      else (p, []))"

section \<open>Helper functions of app.py\<close>

text \<open>\<open>allowed_file\<close> (lines 48--51); \<open>filename.rsplit('.', 1)[1]\<close> is the text after the last dot.\<close>

definition allowed_file :: "string \<Rightarrow> bool" where
  "allowed_file filename =
     (CHR ''.'' \<in> set filename \<and> lower (after_last CHR ''.'' filename) \<in> ALLOWED_EXTENSIONS)"

section \<open>Data model\<close>

text \<open>A metadata item of \<open>scraped_data.json\<close>: a JSON object with string fields.\<close>

type_synonym item = "(string \<times> string) list"

text \<open>
  An entry of \<open>face_database\<close> (line 37). The embedding is a one-dimensional array of
  numbers, read here as reals; \<open>None\<close> stands for a missing value or one that is not an
  array, which line 1029 tests for.
\<close>

record entry =
  before_path :: string
  after_path :: "string option"
  embedding :: "real list option"
  metadata :: "item option"

datatype level = DEBUG | INFO | WARNING | ERROR

text \<open>The logger calls of the source, by what they report.\<close>

datatype event =
    Already_loaded
  | Metadata_loaded
  | Metadata_failed
  | Loading_from string
  | Before_folder_missing
  | No_after_image string
  | Processed nat
  | No_face string
  | ValueError_for string
  | Error_processing string
  | Skipping_non_allowed string
  | Loading_complete nat nat
  | Database_empty
  | Saving_cache
  | Cache_saved
  | Cache_save_error
  | Cache_attempt
  | Cache_loaded nat
  | Cache_load_failed
  | Starting_background_load
  | Not_ready
  | File_uploaded string
  | Could_not_process string
  | Unexpected_processing string
  | Skip_invalid_embedding nat
  | Skip_shape nat nat nat
  | Distance_error nat
  | No_valid_distances string
  | Found_matches nat nat
  | Match_line nat nat string
  | Returning nat string
  | No_matches string
  | Matching_error string

type_synonym log = "(level \<times> event) list"

text \<open>The module's globals (lines 38--40).\<close>

record globals =
  face_database :: "entry list"
  metadata_mapping :: "string \<rightharpoonup> item"
  database_loaded :: bool

definition initial_globals :: globals where
  "initial_globals =
     \<lparr>face_database = [], metadata_mapping = Map.empty, database_loaded = False\<rparr>"

text \<open>
  The files the program reads and writes: the parsed content of the metadata file
  (\<open>None\<close> when reading or parsing it raises), the listing of the before folder
  (\<open>None\<close> when the folder does not exist), the set of the other existing paths, and the
  cache file's content (\<open>None\<close> when there is no cache file).
\<close>

record 'b filesystem =
  metadata_json :: "item list option"
  before_folder :: "string list option"
  files :: "string set"
  cache_file :: "'b option"

text \<open>
  What \<open>DeepFace.represent\<close> does on an image: it raises a \<open>ValueError\<close>, raises another
  exception, or returns a list of embeddings (the \<open>embedding\<close> field of each object).
\<close>

datatype represent_result =
    Raises_ValueError string
  | Raises_Exception
  | Returns "real list list"

text \<open>
  What lines 150--151 do to the cache file: \<open>open(cache_path, 'wb')\<close> raises and the
  file is untouched; or the file is opened, hence created or truncated, and
  \<open>pickle.dump\<close> raises after writing some bytes (possibly none); or the dump is written.
\<close>

datatype 'b dump_result = Open_raises | Dump_raises 'b | Dumped 'b

text \<open>
  The pickle library: \<open>pickle_dump\<close> gives the outcome of writing a database,
  \<open>pickle_load\<close> the object read from a file's content (\<open>None\<close> when it raises).
\<close>

record 'b pickle =
  pickle_dump :: "entry list \<Rightarrow> 'b dump_result"
  pickle_load :: "'b \<Rightarrow> entry list option"

section \<open>Building the database: \<open>load_database\<close> (lines 64--154)\<close>

text \<open>
  The dict comprehension of line 77: later items replace earlier ones with the same
  \<open>case_id\<close>; an item without a \<open>case_id\<close> raises \<open>KeyError\<close>.
\<close>

fun metadata_dict :: "item list \<Rightarrow> (string \<rightharpoonup> item) \<Rightarrow> (string \<rightharpoonup> item) option" where
  "metadata_dict [] m = Some m"
| "metadata_dict (it # its) m =
     (case map_of it ''case_id'' of
        None \<Rightarrow> None
      | Some k \<Rightarrow> metadata_dict its (m(k \<mapsto> it)))"

definition load_metadata :: "item list option \<Rightarrow> (string \<rightharpoonup> item) \<times> log" where
  "load_metadata json =
     (case json of
        None \<Rightarrow> (Map.empty, [(WARNING, Metadata_failed)])
      | Some metadata_list \<Rightarrow>
          (case metadata_dict metadata_list Map.empty of
             None \<Rightarrow> (Map.empty, [(WARNING, Metadata_failed)])
           | Some m \<Rightarrow> (m, [(INFO, Metadata_loaded)])))"

text \<open>\<open>find_corresponding_after_image\<close> (lines 53--62).\<close>

definition find_corresponding_after_image :: "string set \<Rightarrow> string \<Rightarrow> string option \<times> log" where
  "find_corresponding_after_image fs before_filename_full_path =
     (let base_filename = basename before_filename_full_path;
          after_path = path_join FULL_AFTER_FOLDER base_filename
      in if after_path \<in> fs then (Some after_path, [])
         else (None, [(WARNING, No_after_image base_filename)]))"

text \<open>
  One iteration of the loop of lines 94--137, on the loop's variables
  \<open>temp_database\<close>, \<open>processed_files\<close>, \<open>failed_files\<close> and the log so far.
\<close>

definition process_file ::
  "(string \<Rightarrow> bool \<Rightarrow> represent_result) \<Rightarrow> string set \<Rightarrow> (string \<rightharpoonup> item) \<Rightarrow> string \<Rightarrow>
   entry list \<times> nat \<times> nat \<times> log \<Rightarrow> entry list \<times> nat \<times> nat \<times> log" where
  "process_file represent fs mm filename acc =
     (case acc of (temp_database, processed_files, failed_files, lg) \<Rightarrow>
      if allowed_file filename then
        (let before_path_full = path_join FULL_BEFORE_FOLDER filename in
         case represent before_path_full False of
           Returns (emb # _) \<Rightarrow>
             (let (after_path_full, lg1) = find_corresponding_after_image fs before_path_full;
                  before_path_relative = path_join BEFORE_FOLDER_NAME filename;
                  after_path_relative =
                    (case after_path_full of
                       Some p \<Rightarrow> Some (path_join AFTER_FOLDER_NAME (basename p))
                     | None \<Rightarrow> None);
                  case_id = fst (splitext filename);
                  entry_metadata = mm case_id;
                  processed_files' = processed_files + 1
              in (temp_database @
                    [\<lparr>before_path = before_path_relative, after_path = after_path_relative,
                      embedding = Some emb, metadata = entry_metadata\<rparr>],
                  processed_files', failed_files,
                  lg @ lg1 @
                    (if processed_files' mod 10 = 0 then [(INFO, Processed processed_files')]
                     else [])))
         | Returns [] \<Rightarrow>
             (temp_database, processed_files, failed_files + 1,
              lg @ [(WARNING, No_face filename)])
         | Raises_ValueError e \<Rightarrow>
             (temp_database, processed_files, failed_files + 1,
              lg @ [(WARNING, ValueError_for filename)])
         | Raises_Exception \<Rightarrow>
             (temp_database, processed_files, failed_files + 1,
              lg @ [(ERROR, Error_processing filename)]))
      else (temp_database, processed_files, failed_files,
            lg @ [(DEBUG, Skipping_non_allowed filename)]))"

fun load_loop ::
  "(string \<Rightarrow> bool \<Rightarrow> represent_result) \<Rightarrow> string set \<Rightarrow> (string \<rightharpoonup> item) \<Rightarrow> string list \<Rightarrow>
   entry list \<times> nat \<times> nat \<times> log \<Rightarrow> entry list \<times> nat \<times> nat \<times> log" where
  "load_loop represent fs mm [] acc = acc"
| "load_loop represent fs mm (filename # rest) acc =
     load_loop represent fs mm rest (process_file represent fs mm filename acc)"

text \<open>
  \<open>load_database\<close>: the globals and the files after the call, and what it logged. The
  lock of line 67 is held for the whole body, so the body runs as one step.
\<close>

definition load_database ::
  "'b pickle \<Rightarrow> (string \<Rightarrow> bool \<Rightarrow> represent_result) \<Rightarrow> globals \<Rightarrow> 'b filesystem \<Rightarrow>
   globals \<times> 'b filesystem \<times> log" where
  "load_database pk represent g fsys =
     (if database_loaded g then (g, fsys, [(INFO, Already_loaded)])
      else
        (let (mm, lg0) = load_metadata (metadata_json fsys);
             g1 = g\<lparr>metadata_mapping := mm\<rparr>;
             lg1 = lg0 @ [(INFO, Loading_from FULL_BEFORE_FOLDER)]
         in case before_folder fsys of
              None \<Rightarrow>
                (g1\<lparr>database_loaded := True\<rparr>, fsys, lg1 @ [(ERROR, Before_folder_missing)])
            | Some listing \<Rightarrow>
                (case load_loop represent (files fsys) mm listing ([], 0, 0, lg1) of
                   (temp_database, processed_files, failed_files, lg2) \<Rightarrow>
                     (let g2 = g1\<lparr>face_database := temp_database, database_loaded := True\<rparr>;
                          lg3 = lg2 @ [(INFO, Loading_complete processed_files failed_files)] @
                                (if temp_database = [] then [(WARNING, Database_empty)] else []) @
                                [(INFO, Saving_cache)]
                      in case pickle_dump pk temp_database of
                           Dumped bytes \<Rightarrow>
                             (g2, fsys\<lparr>cache_file := Some bytes\<rparr>, lg3 @ [(INFO, Cache_saved)])
                         | Dump_raises partial \<Rightarrow>
                             (g2, fsys\<lparr>cache_file := Some partial\<rparr>,
                              lg3 @ [(ERROR, Cache_save_error)])
                         | Open_raises \<Rightarrow> (g2, fsys, lg3 @ [(ERROR, Cache_save_error)])))))"

section \<open>Floating-point distances and \<open>list.sort\<close>\<close>

text \<open>
  A distance or similarity as the handler holds it: a number, read as a real, or the
  floating-point nan, written \<open>Undefined\<close>.
\<close>

datatype cosine_value = Undefined | Defined real

text \<open>Python's \<open><\<close> and \<open><=\<close> on floats: every comparison with nan is false.\<close>

definition float_lt :: "cosine_value \<Rightarrow> cosine_value \<Rightarrow> bool" where
  "float_lt a b = (case (a, b) of (Defined x, Defined y) \<Rightarrow> x < y | _ \<Rightarrow> False)"


text \<open>Python's \<open>-\<close> on floats: nan when an operand is nan.\<close>

definition float_sub :: "cosine_value \<Rightarrow> cosine_value \<Rightarrow> cosine_value" where
  "float_sub a b = (case (a, b) of (Defined x, Defined y) \<Rightarrow> Defined (x - y) | _ \<Rightarrow> Undefined)"

text \<open>
  \<open>list.sort(key=...)\<close> of CPython 3.11 (the interpreter \<open>setup.py\<close> installs) on a
  list of fewer than 64 elements, where the whole list is one run: \<open>count_run\<close> takes
  the longest prefix that never descends, or that strictly descends and is then
  reversed, and \<open>binarysort\<close> places each remaining element by bisection, after the
  elements it is not less than. The only comparison is the \<open><\<close> of the keys. Longer
  lists are cut into such runs and merged, which gives the same list whenever \<open><\<close> is
  a total order on the keys.
\<close>

fun ascending_run ::
  "('k \<Rightarrow> 'k \<Rightarrow> bool) \<Rightarrow> ('a \<Rightarrow> 'k) \<Rightarrow> 'a \<Rightarrow> 'a list \<Rightarrow> 'a list \<times> 'a list" where
  "ascending_run lt key prev [] = ([], [])"
| "ascending_run lt key prev (x # xs) =
     (if lt (key x) (key prev) then ([], x # xs)
      else (case ascending_run lt key x xs of (run, rest) \<Rightarrow> (x # run, rest)))"

fun descending_run ::
  "('k \<Rightarrow> 'k \<Rightarrow> bool) \<Rightarrow> ('a \<Rightarrow> 'k) \<Rightarrow> 'a \<Rightarrow> 'a list \<Rightarrow> 'a list \<times> 'a list" where
  "descending_run lt key prev [] = ([], [])"
| "descending_run lt key prev (x # xs) =
     (if lt (key x) (key prev)
      then (case descending_run lt key x xs of (run, rest) \<Rightarrow> (x # run, rest))
      else ([], x # xs))"

function bisect ::
  "('k \<Rightarrow> 'k \<Rightarrow> bool) \<Rightarrow> ('a \<Rightarrow> 'k) \<Rightarrow> 'k \<Rightarrow> 'a list \<Rightarrow> nat \<Rightarrow> nat \<Rightarrow> nat" where
  "bisect lt key pivot a l r =
     (if l < r then
        (let p = l + (r - l) div 2 in
         if lt pivot (key (a ! p)) then bisect lt key pivot a l p
         else bisect lt key pivot a (p + 1) r)
      else l)"
  by pat_completeness auto
termination
  by (relation "measure (\<lambda>(lt, key, pivot, a, l, r). r - l)") auto

fun binarysort ::
  "('k \<Rightarrow> 'k \<Rightarrow> bool) \<Rightarrow> ('a \<Rightarrow> 'k) \<Rightarrow> 'a list \<Rightarrow> 'a list \<Rightarrow> 'a list" where
  "binarysort lt key a [] = a"
| "binarysort lt key a (x # xs) =
     (let l = bisect lt key (key x) a 0 (length a)
      in binarysort lt key (take l a @ x # drop l a) xs)"

definition list_sort :: "('k \<Rightarrow> 'k \<Rightarrow> bool) \<Rightarrow> ('a \<Rightarrow> 'k) \<Rightarrow> 'a list \<Rightarrow> 'a list" where
  "list_sort lt key xs =
     (case xs of
        a # b # others \<Rightarrow>
          (if lt (key b) (key a)
           then (case descending_run lt key b others of
                   (run, rest) \<Rightarrow> binarysort lt key (rev (a # b # run)) rest)
           else (case ascending_run lt key b others of
                   (run, rest) \<Rightarrow> binarysort lt key (a # b # run) rest))
      | _ \<Rightarrow> xs)"

section \<open>Matching: \<open>match_face\<close> (lines 975--1107)\<close>

text \<open>
  The collaborators of the request handler: \<open>scipy\<close>'s cosine distance (\<open>None\<close> when it
  raises), \<open>DeepFace.represent\<close> by image path and \<open>enforce_detection\<close>, \<open>werkzeug\<close>'s
  \<open>secure_filename\<close>, and Flask's \<open>url_for\<close> by endpoint and values (\<open>None\<close> when it
  raises). The handler uses them with \<open>cosine_value\<close> for the distance type \<open>'d\<close>.
\<close>

record 'd externals =
  cosine :: "real list \<Rightarrow> real list \<Rightarrow> 'd option"
  represent :: "string \<Rightarrow> bool \<Rightarrow> represent_result"
  secure_filename :: "string \<Rightarrow> string"
  url_for :: "string \<Rightarrow> string list \<Rightarrow> string option"

text \<open>The uploaded file of a request: its \<open>filename\<close>, and whether \<open>file.save\<close> raises.\<close>

record upload =
  upload_filename :: string
  save_raises :: bool

text \<open>One element of the \<open>matches\<close> list of a response (lines 1072--1077).\<close>

record 'd match_data =
  similarity :: 'd
  match_before_url :: string
  match_after_url :: "string option"
  match_metadata :: "item option"

text \<open>The JSON object a request is answered with.\<close>

record 'd response =
  success :: bool
  message :: string
  error_type :: "string option"
  uploaded_image_url :: "string option"
  matches :: "'d match_data list option"

definition failure :: "string \<Rightarrow> string option \<Rightarrow> 'd response" where
  "failure msg ty =
     \<lparr>success = False, message = msg, error_type = ty, uploaded_image_url = None,
      matches = None\<rparr>"

definition not_ready :: "'d response" where
  "not_ready =
     failure ''Face database is not ready. Please wait or contact administrator.'' None"

definition could_not_process :: "string \<Rightarrow> 'd response" where
  "could_not_process e = failure (''Could not process image: '' @ e) None"

definition unexpected_error :: "'d response" where
  "unexpected_error = failure ''An unexpected error occurred during image processing.'' None"

definition compare_error :: "'d response" where
  "compare_error = failure ''Could not compare with database entries.'' (Some ''DB_COMPARE_ERROR'')"

definition no_match_found :: "'d response" where
  "no_match_found =
     failure ''No suitable matches found in the database.'' (Some ''NO_MATCH_FOUND'')"

definition internal_error :: "'d response" where
  "internal_error = failure ''An internal server error occurred.'' None"

text \<open>Decimal digits of a number, as an f-string prints it.\<close>

fun str_nat :: "nat \<Rightarrow> string" where
  "str_nat n =
     (if n < 10 then [''0123456789'' ! n]
      else str_nat (n div 10) @ [''0123456789'' ! (n mod 10)])"

text \<open>
  The loop of lines 1025--1039 from index \<open>i\<close> on: the \<open>distances\<close> list, as pairs of
  \<open>index\<close> and \<open>distance\<close>, and the log.
\<close>

fun compare_from ::
  "(real list \<Rightarrow> real list \<Rightarrow> 'd option) \<Rightarrow> real list \<Rightarrow> nat \<Rightarrow> entry list \<Rightarrow>
   (nat \<times> 'd) list \<times> log" where
  "compare_from cosine_fn uploaded_embedding i [] = ([], [])"
| "compare_from cosine_fn uploaded_embedding i (db_entry # rest) =
     (case compare_from cosine_fn uploaded_embedding (Suc i) rest of (distances, lg) \<Rightarrow>
        (case embedding db_entry of
           None \<Rightarrow> (distances, (WARNING, Skip_invalid_embedding i) # lg)
         | Some db_embedding \<Rightarrow>
             if length db_embedding \<noteq> length uploaded_embedding
             then (distances,
                   (WARNING, Skip_shape i (length db_embedding) (length uploaded_embedding)) # lg)
             else (case cosine_fn uploaded_embedding db_embedding of
                     None \<Rightarrow> (distances, (ERROR, Distance_error i) # lg)
                   | Some distance \<Rightarrow> ((i, distance) # distances, lg))))"

definition compare_entries ::
  "(real list \<Rightarrow> real list \<Rightarrow> 'd option) \<Rightarrow> real list \<Rightarrow> entry list \<Rightarrow> (nat \<times> 'd) list \<times> log" where
  "compare_entries cosine_fn uploaded_embedding db = compare_from cosine_fn uploaded_embedding 0 db"

text \<open>Lines 1066 and 1069: the file names the image URLs are built from.\<close>

definition before_filename :: "entry \<Rightarrow> string" where
  "before_filename db_entry =
     (if before_path db_entry \<noteq> [] then basename (before_path db_entry) else ''invalid'')"

definition after_filename :: "entry \<Rightarrow> string option" where
  "after_filename db_entry =
     (case after_path db_entry of
        None \<Rightarrow> None
      | Some p \<Rightarrow> if p \<noteq> [] then Some (basename p) else None)"

text \<open>The body of the loop of lines 1056--1077 after the log line; \<open>None\<close> when \<open>url_for\<close> raises.\<close>

definition match_entry ::
  "(string \<Rightarrow> string list \<Rightarrow> string option) \<Rightarrow> entry \<Rightarrow> cosine_value \<Rightarrow>
   cosine_value match_data option" where
  "match_entry uf db_entry sim =
     (case uf ''database_image'' [BEFORE_FOLDER_NAME, before_filename db_entry] of
        None \<Rightarrow> None
      | Some before_url \<Rightarrow>
          (case (case after_filename db_entry of
                   None \<Rightarrow> Some None
                 | Some a \<Rightarrow>
                     if a \<noteq> [] then map_option Some (uf ''database_image'' [AFTER_FOLDER_NAME, a])
                     else Some None) of
             None \<Rightarrow> None
           | Some after_url \<Rightarrow>
               Some \<lparr>similarity = sim, match_before_url = before_url,
                     match_after_url = after_url, match_metadata = metadata db_entry\<rparr>))"

fun top_matches_data ::
  "(string \<Rightarrow> string list \<Rightarrow> string option) \<Rightarrow> entry list \<Rightarrow> nat \<Rightarrow>
   (nat \<times> cosine_value) list \<Rightarrow> cosine_value match_data list option \<times> log" where
  "top_matches_data uf db i [] = (Some [], [])"
| "top_matches_data uf db i ((db_index, distance) # rest) =
     (let db_entry = db ! db_index;
          lg = [(INFO, Match_line (i + 1) db_index (before_path db_entry))]
      in case match_entry uf db_entry (float_sub (Defined 1) distance) of
           None \<Rightarrow> (None, lg)
         | Some m \<Rightarrow>
             (case top_matches_data uf db (Suc i) rest of
                (r, lg') \<Rightarrow> (map_option ((#) m) r, lg @ lg')))"

text \<open>Lines 994--1105: the handler once \<open>file.save\<close> has written the upload.\<close>

definition match_uploaded ::
  "cosine_value externals \<Rightarrow> globals \<Rightarrow> string set \<Rightarrow> string \<Rightarrow> string \<Rightarrow>
   cosine_value response \<times> string set \<times> log" where
  "match_uploaded X g fs filename uploaded_filepath =
     (let lg0 = [(INFO, File_uploaded uploaded_filepath)];
          no_face = (\<lambda>e. (could_not_process e, fs - {uploaded_filepath},
                          lg0 @ [(WARNING, Could_not_process filename)]))
      in case represent X uploaded_filepath True of
           Raises_ValueError e \<Rightarrow> no_face e
         | Raises_Exception \<Rightarrow>
             (unexpected_error, fs - {uploaded_filepath},
              lg0 @ [(ERROR, Unexpected_processing filename)])
         | Returns [] \<Rightarrow> no_face ''No face detected in uploaded image.''
         | Returns (uploaded_embedding # _) \<Rightarrow>
             (case compare_entries (cosine X) uploaded_embedding (face_database g) of
                (distances, lg1) \<Rightarrow>
                  if distances = [] then
                    (compare_error, fs - {uploaded_filepath},
                     lg0 @ lg1 @ [(WARNING, No_valid_distances filename)])
                  else
                    (let sorted_distances = list_sort float_lt snd distances;
                         num_matches_to_show = min 3 (length sorted_distances);
                         lg2 = lg0 @ lg1 @
                               [(INFO, Found_matches (length sorted_distances) num_matches_to_show)];
                         raised = (\<lambda>lg. (internal_error, fs - {uploaded_filepath},
                                         lg @ [(ERROR, Matching_error filename)]))
                      in case top_matches_data (url_for X) (face_database g) 0
                                (take num_matches_to_show sorted_distances) of
                           (None, lg3) \<Rightarrow> raised (lg2 @ lg3)
                         | (Some top_matches, lg3) \<Rightarrow>
                             (case url_for X ''uploaded_file'' [filename] of
                                None \<Rightarrow> raised (lg2 @ lg3)
                              | Some uploaded_url \<Rightarrow>
                                  if num_matches_to_show > 0 then
                                    (\<lparr>success = True,
                                      message = str_nat num_matches_to_show @ '' matches found.'',
                                      error_type = None,
                                      uploaded_image_url = Some uploaded_url,
                                      matches = Some top_matches\<rparr>,
                                     fs,
                                     lg2 @ lg3 @ [(INFO, Returning num_matches_to_show filename)])
                                  else
                                    (no_match_found, fs - {uploaded_filepath},
                                     lg2 @ lg3 @ [(INFO, No_matches filename)])))))"

text \<open>
  \<open>match_face\<close>: the response, the existing paths afterwards, and the log. When
  \<open>file.save\<close> raises, the handler of line 1100 removes whatever is at the upload path.
\<close>

definition match_face ::
  "cosine_value externals \<Rightarrow> globals \<Rightarrow> string set \<Rightarrow> upload option \<Rightarrow>
   cosine_value response \<times> string set \<times> log" where
  "match_face X g fs file_part =
     (if \<not> database_loaded g \<or> face_database g = [] then (not_ready, fs, [(WARNING, Not_ready)])
      else case file_part of
             None \<Rightarrow> (failure ''No file part in the request.'' None, fs, [])
           | Some file \<Rightarrow>
               if upload_filename file = [] then (failure ''No selected file.'' None, fs, [])
               else if allowed_file (upload_filename file) then
                 (let filename = secure_filename X (upload_filename file);
                      uploaded_filepath = path_join UPLOAD_FOLDER filename
                  in if save_raises file then
                       (internal_error, fs - {uploaded_filepath},
                        [(ERROR, Matching_error filename)])
                     else match_uploaded X g (insert uploaded_filepath fs) filename
                            uploaded_filepath)
               else (failure ''File type not allowed.'' None, fs, []))"

section \<open>Start-up (lines 1133--1179)\<close>

text \<open>
  The main block from the module's initial globals: the folders are created, the cache
  is tried, and otherwise \<open>load_database\<close> runs (in the source on a background thread;
  here to completion).
\<close>

definition startup ::
  "'b pickle \<Rightarrow> (string \<Rightarrow> bool \<Rightarrow> represent_result) \<Rightarrow> 'b filesystem \<Rightarrow>
   globals \<times> 'b filesystem \<times> log" where
  "startup pk rep fsys0 =
     (let fsys = (case before_folder fsys0 of
                    None \<Rightarrow> fsys0\<lparr>before_folder := Some []\<rparr>
                  | Some _ \<Rightarrow> fsys0);
          g0 = initial_globals
      in case cache_file fsys of
           None \<Rightarrow>
             (case load_database pk rep (g0\<lparr>metadata_mapping := Map.empty\<rparr>) fsys of
                (g, fsys', lg) \<Rightarrow> (g, fsys', (INFO, Starting_background_load) # lg))
         | Some bytes \<Rightarrow>
             (case pickle_load pk bytes of
                Some db \<Rightarrow>
                  (let (mm, lg) = load_metadata (metadata_json fsys)
                   in (g0\<lparr>face_database := db, database_loaded := True, metadata_mapping := mm\<rparr>,
                       fsys,
                       [(INFO, Cache_attempt), (INFO, Cache_loaded (length db))] @ lg))
              | None \<Rightarrow>
                  (case load_database pk rep
                          (g0\<lparr>database_loaded := False, metadata_mapping := Map.empty\<rparr>) fsys of
                     (g, fsys', lg) \<Rightarrow>
                       (g, fsys',
                        [(INFO, Cache_attempt), (WARNING, Cache_load_failed),
                         (INFO, Starting_background_load)] @ lg))))"

section \<open>Notions of the specification\<close>

text \<open>
  The identifier of a record: the stem of its before image's filename. The source
  computes it as \<open>case_id\<close> (line 115) and does not store it in the entry.
\<close>

definition record_identifier :: "entry \<Rightarrow> string" where
  "record_identifier e = fst (splitext (basename (before_path e)))"

text \<open>
  The embedding the build takes for a file of the before folder (line 105), if the
  lenient call of line 99 gives one.
\<close>

definition first_embedding :: "(string \<Rightarrow> bool \<Rightarrow> represent_result) \<Rightarrow> string \<Rightarrow> real list option" where
  "first_embedding rep filename =
     (case rep (path_join FULL_BEFORE_FOLDER filename) False of
        Returns (emb # _) \<Rightarrow> Some emb
      | _ \<Rightarrow> None)"

definition embeds :: "(string \<Rightarrow> bool \<Rightarrow> represent_result) \<Rightarrow> string \<Rightarrow> bool" where
  "embeds rep filename = (allowed_file filename \<and> first_embedding rep filename \<noteq> None)"

definition fails_embedding :: "(string \<Rightarrow> bool \<Rightarrow> represent_result) \<Rightarrow> string \<Rightarrow> bool" where
  "fails_embedding rep filename = (allowed_file filename \<and> first_embedding rep filename = None)"

text \<open>
  The formula \<open>1 - dot(a,b) / (\<parallel>a\<parallel>\<cdot>\<parallel>b\<parallel>)\<close> of the cosine distance over the reals.
  Where a norm is zero the quotient is undefined (in floating point, a nan); vectors of
  different lengths make the dot product raise.
\<close>

definition dot :: "real list \<Rightarrow> real list \<Rightarrow> real" where
  "dot u v = sum_list (map2 (*) u v)"

definition cosine_formula :: "real list \<Rightarrow> real list \<Rightarrow> cosine_value option" where
  "cosine_formula u v =
     (if length u \<noteq> length v then None
      else if dot u u * dot v v = 0 then Some Undefined
      else Some (Defined (1 - dot u v / sqrt (dot u u * dot v v))))"



section \<open>A small gallery, for concrete instances\<close>

definition example_represent :: "string \<Rightarrow> bool \<Rightarrow> represent_result" where
  "example_represent img_path enforce_detection =
     (let name = basename img_path in
      if name = ''a.png'' then Returns [[0, 1]]
      else if name = ''b.png'' then Returns [[1, 0]]
      else if name = ''c.png'' then Returns [[-1, 0]]
      else if name = ''d.jpg'' then Returns [[0, -1]]
      else if name = ''query.png'' then Returns [[1, 0]]
      else if name = ''blank.png'' then
        (if enforce_detection then Raises_ValueError ''Face could not be detected.''
         else Returns [])
      else if name = ''broken.png'' then Raises_Exception
      else Raises_ValueError ''Face could not be detected.'')"

text \<open>The URLs of the routes of lines 1111 and 1117.\<close>

definition example_url_for :: "string \<Rightarrow> string list \<Rightarrow> string option" where
  "example_url_for endpoint vals =
     (if endpoint = ''uploaded_file'' then
        (case vals of [filename] \<Rightarrow> Some (''/uploads/'' @ filename) | _ \<Rightarrow> None)
      else if endpoint = ''database_image'' then
        (case vals of
           [subdir, filename] \<Rightarrow> Some (''/database_images/'' @ subdir @ ''/'' @ filename)
         | _ \<Rightarrow> None)
      else None)"

definition example_externals :: "cosine_value externals" where
  "example_externals =
     \<lparr>cosine = cosine_formula, represent = example_represent, secure_filename = (\<lambda>s. s),
      url_for = example_url_for\<rparr>"

definition example_database :: "entry list" where
  "example_database =
     [\<lparr>before_path = ''before/a.png'', after_path = Some ''after/a.png'',
       embedding = Some [0, 1], metadata = None\<rparr>,
      \<lparr>before_path = ''before/b.png'', after_path = None,
       embedding = Some [1, 0], metadata = Some [(''case_id'', ''b'')]\<rparr>,
      \<lparr>before_path = ''before/c.png'', after_path = None,
       embedding = Some [-1, 0], metadata = None\<rparr>,
      \<lparr>before_path = ''before/d.jpg'', after_path = None,
       embedding = Some [0, -1], metadata = None\<rparr>]"

definition example_globals :: globals where
  "example_globals =
     \<lparr>face_database = example_database, metadata_mapping = Map.empty, database_loaded = True\<rparr>"

definition example_upload :: "string \<Rightarrow> upload" where
  "example_upload name = \<lparr>upload_filename = name, save_raises = False\<rparr>"

text \<open>A pickle that stores the list itself, and a file system around a before folder.\<close>

definition example_pickle :: "entry list pickle" where
  "example_pickle = \<lparr>pickle_dump = Dumped, pickle_load = Some\<rparr>"

definition example_filesystem :: "string list option \<Rightarrow> entry list filesystem" where
  "example_filesystem listing =
     \<lparr>metadata_json = Some [[(''case_id'', ''b''), (''procedure'', ''rhinoplasty'')]],
      before_folder = listing,
      files = {''database/images/after/a.png''},
      cache_file = None\<rparr>"

text \<open>
  Two galleries with an entry whose embedding is the zero vector: in the first the
  identical entry comes last of four, in the second last of five.
\<close>

definition example_entry :: "string \<Rightarrow> real list \<Rightarrow> entry" where
  "example_entry name emb =
     \<lparr>before_path = ''before/'' @ name, after_path = None, embedding = Some emb,
      metadata = None\<rparr>"

definition zero_globals :: globals where
  "zero_globals =
     \<lparr>face_database =
        [example_entry ''a.png'' [0, 1], example_entry ''z.png'' [0, 0],
         example_entry ''c.png'' [-1, 0], example_entry ''b.png'' [1, 0]],
      metadata_mapping = Map.empty, database_loaded = True\<rparr>"

definition hidden_globals :: globals where
  "hidden_globals =
     \<lparr>face_database =
        [example_entry ''a.png'' [0, 1], example_entry ''c.png'' [-1, 0],
         example_entry ''e.png'' [-1, 0], example_entry ''z.png'' [0, 0],
         example_entry ''b.png'' [1, 0]],
      metadata_mapping = Map.empty, database_loaded = True\<rparr>"

section \<open>Auxiliary facts\<close>

lemmas example_defs = example_globals_def example_database_def example_externals_def
  example_upload_def example_url_for_def example_represent_def cosine_formula_def dot_def
  example_pickle_def example_filesystem_def example_entry_def zero_globals_def
  hidden_globals_def

lemmas path_defs = allowed_file_def lower_def lower_char_def after_last_def before_last_def
  basename_def path_join_def splitext_def ALLOWED_EXTENSIONS_def UPLOAD_FOLDER_def
  BEFORE_FOLDER_NAME_def AFTER_FOLDER_NAME_def FULL_BEFORE_FOLDER_def FULL_AFTER_FOLDER_def

lemmas response_defs = not_ready_def no_match_found_def compare_error_def failure_def
  internal_error_def could_not_process_def unexpected_error_def

subsection \<open>The build loop\<close>

lemma process_file_cases:
  "process_file rep fs mm f (db, p, q, lg) = (db', p', q', lg') \<Longrightarrow>
     (embeds rep f \<longrightarrow> (\<exists>e. db' = db @ [e] \<and> before_path e = path_join BEFORE_FOLDER_NAME f \<and>
          embedding e = first_embedding rep f \<and> metadata e = mm (fst (splitext f))) \<and> p' = p + 1 \<and> q' = q) \<and>
     (fails_embedding rep f \<longrightarrow> db' = db \<and> p' = p \<and> q' = q + 1) \<and>
     (\<not> allowed_file f \<longrightarrow> db' = db \<and> p' = p \<and> q' = q)"
  by (auto simp: process_file_def embeds_def fails_embedding_def first_embedding_def Let_def
      split: represent_result.splits list.splits prod.splits if_splits)

lemma load_loop_result:
  "load_loop rep fs mm listing (db, p, q, lg) = (db', p', q', lg') \<Longrightarrow>
     map before_path db' = map before_path db @ map (path_join BEFORE_FOLDER_NAME) (filter (embeds rep) listing) \<and>
     map embedding db' = map embedding db @ map (first_embedding rep) (filter (embeds rep) listing) \<and>
     map metadata db' = map metadata db @ map (\<lambda>f. mm (fst (splitext f))) (filter (embeds rep) listing) \<and>
     p' = p + length (filter (embeds rep) listing) \<and>
     q' = q + length (filter (fails_embedding rep) listing)"
proof (induction listing arbitrary: db p q lg)
  case Nil
  then show ?case by simp
next
  case (Cons f rest)
  obtain db1 p1 q1 lg1 where step: "process_file rep fs mm f (db, p, q, lg) = (db1, p1, q1, lg1)"
    by (metis prod_cases4)
  with Cons.prems have rest: "load_loop rep fs mm rest (db1, p1, q1, lg1) = (db', p', q', lg')"
    by simp
  note IH = Cons.IH [OF rest]
  note pf = process_file_cases [OF step]
  have "embeds rep f \<or> fails_embedding rep f \<or> \<not> allowed_file f"
    by (cases "first_embedding rep f") (auto simp: embeds_def fails_embedding_def)
  then consider (ok) "embeds rep f" | (bad) "fails_embedding rep f" | (skip) "\<not> allowed_file f"
    by blast
  then show ?case
  proof cases
    case ok
    then have nf: "\<not> fails_embedding rep f" by (simp add: embeds_def fails_embedding_def)
    from ok pf obtain e where e: "db1 = db @ [e]" "before_path e = path_join BEFORE_FOLDER_NAME f"
      "embedding e = first_embedding rep f" "metadata e = mm (fst (splitext f))" "p1 = p + 1" "q1 = q"
      by blast
    with IH ok nf show ?thesis by simp
  next
    case bad
    then have ne: "\<not> embeds rep f" by (simp add: embeds_def fails_embedding_def)
    from bad pf have "db1 = db" "p1 = p" "q1 = q + 1" by blast+
    with IH bad ne show ?thesis by simp
  next
    case skip
    then have ne: "\<not> embeds rep f" "\<not> fails_embedding rep f" by (simp_all add: embeds_def fails_embedding_def)
    from skip pf have "db1 = db" "p1 = p" "q1 = q" by blast+
    with IH ne show ?thesis by simp
  qed
qed

lemma load_database_build:
  assumes "\<not> database_loaded g" and "before_folder fsys = Some listing"
  shows "\<exists>fsys' lg db p q lg2.
     load_loop rep (files fsys) (fst (load_metadata (metadata_json fsys))) listing
        ([], 0, 0, snd (load_metadata (metadata_json fsys)) @ [(INFO, Loading_from FULL_BEFORE_FOLDER)]) = (db, p, q, lg2) \<and>
     load_database pk rep g fsys =
       (g\<lparr>metadata_mapping := fst (load_metadata (metadata_json fsys)), face_database := db, database_loaded := True\<rparr>, fsys', lg) \<and>
     (INFO, Loading_complete p q) \<in> set lg \<and>
     fsys' = (case pickle_dump pk db of
                Dumped bytes \<Rightarrow> fsys\<lparr>cache_file := Some bytes\<rparr>
              | Dump_raises partial \<Rightarrow> fsys\<lparr>cache_file := Some partial\<rparr>
              | Open_raises \<Rightarrow> fsys)"
  using assms
  by (auto simp: load_database_def Let_def split: prod.splits option.splits dump_result.splits)

lemma load_database_paths:
  assumes "\<not> database_loaded g" and "before_folder fsys = Some listing"
  shows "map before_path (face_database (fst (load_database pk rep g fsys))) =
           map (path_join BEFORE_FOLDER_NAME) (filter (embeds rep) listing)"
proof -
  from load_database_build [OF assms, of rep pk]
  obtain fsys' lg db p q lg2 where
    loop: "load_loop rep (files fsys) (fst (load_metadata (metadata_json fsys))) listing
        ([], 0, 0, snd (load_metadata (metadata_json fsys)) @
           [(INFO, Loading_from FULL_BEFORE_FOLDER)]) = (db, p, q, lg2)"
    and res: "load_database pk rep g fsys =
       (g\<lparr>metadata_mapping := fst (load_metadata (metadata_json fsys)), face_database := db,
          database_loaded := True\<rparr>, fsys', lg)"
    by blast
  from load_loop_result [OF loop] res show ?thesis by simp
qed

lemma load_database_missing_folder:
  assumes "\<not> database_loaded g" and "before_folder fsys = None"
  shows "face_database (fst (load_database pk rep g fsys)) = face_database g \<and>
         database_loaded (fst (load_database pk rep g fsys))"
  using assms by (simp add: load_database_def Let_def split: prod.splits)


subsection \<open>Sorting\<close>

declare bisect.simps [simp del]
















lemma ascending_run_append:
  "ascending_run lt key prev xs = (run, rest) \<Longrightarrow> run @ rest = xs"
proof (induction xs arbitrary: prev run rest)
  case Nil
  then show ?case by simp
next
  case (Cons x xs)
  obtain run' rest' where r: "ascending_run lt key x xs = (run', rest')"
    by (cases "ascending_run lt key x xs")
  with Cons.prems Cons.IH [OF r] show ?case by (auto split: if_splits)
qed

lemma descending_run_append:
  "descending_run lt key prev xs = (run, rest) \<Longrightarrow> run @ rest = xs"
proof (induction xs arbitrary: prev run rest)
  case Nil
  then show ?case by simp
next
  case (Cons x xs)
  obtain run' rest' where r: "descending_run lt key x xs = (run', rest')"
    by (cases "descending_run lt key x xs")
  with Cons.prems Cons.IH [OF r] show ?case by (auto split: if_splits)
qed

lemma mset_insert_at: "mset (take l a @ x # drop l a) = add_mset x (mset a)"
proof -
  have "mset (take l a) + mset (drop l a) = mset a"
    by (metis append_take_drop_id mset_append)
  then show ?thesis by simp
qed

lemma mset_binarysort: "mset (binarysort lt key a xs) = mset a + mset xs"
proof (induction xs arbitrary: a)
  case Nil
  then show ?case by simp
next
  case (Cons x xs)
  let ?l = "bisect lt key (key x) a 0 (length a)"
  have "mset (binarysort lt key a (x # xs)) = mset (take ?l a @ x # drop ?l a) + mset xs"
    by (simp only: binarysort.simps Let_def Cons.IH)
  also have "\<dots> = add_mset x (mset a) + mset xs"
    by (simp only: mset_insert_at)
  finally show ?case by simp
qed

lemma mset_list_sort: "mset (list_sort lt key xs) = mset xs"
proof -
  consider "xs = []" | a where "xs = [a]" | a b others where "xs = a # b # others"
    by (cases xs; cases "tl xs") auto
  then show ?thesis
  proof cases
    case 1
    then show ?thesis by (simp add: list_sort_def)
  next
    case 2
    then show ?thesis by (simp add: list_sort_def)
  next
    case 3
    obtain r1 s1 where d: "descending_run lt key b others = (r1, s1)"
      by (cases "descending_run lt key b others")
    obtain r2 s2 where a: "ascending_run lt key b others = (r2, s2)"
      by (cases "ascending_run lt key b others")
    have e1: "mset r1 + mset s1 = mset others"
      using descending_run_append [OF d] by (metis mset_append)
    have e2: "mset r2 + mset s2 = mset others"
      using ascending_run_append [OF a] by (metis mset_append)
    show ?thesis
    proof (cases "lt (key b) (key a)")
      case True
      then have "list_sort lt key xs = binarysort lt key (rev (a # b # r1)) s1"
        using 3 d by (simp add: list_sort_def)
      then show ?thesis using 3 e1 by (simp add: mset_binarysort)
    next
      case False
      then have "list_sort lt key xs = binarysort lt key (a # b # r2) s2"
        using 3 a by (simp add: list_sort_def)
      then show ?thesis using 3 e2 by (simp add: mset_binarysort)
    qed
  qed
qed

lemma length_list_sort: "length (list_sort lt key xs) = length xs"
  using mset_list_sort [of lt key xs] by (metis size_mset)




subsection \<open>The request handler\<close>

lemma match_face_saved:
  assumes "database_loaded g" "face_database g \<noteq> []" "upload_filename file \<noteq> []"
    "allowed_file (upload_filename file)" "\<not> save_raises file"
    "p = path_join UPLOAD_FOLDER (secure_filename X (upload_filename file))"
  shows "match_face X g fs (Some file) =
     match_uploaded X g (insert p fs) (secure_filename X (upload_filename file)) p"
  using assms by (simp add: match_face_def Let_def)

lemma match_uploaded_cleanup:
  assumes "match_uploaded X g (insert p fs) fn p = (r, fs', lg)"
  shows "(success r \<longrightarrow> p \<in> fs' \<and> uploaded_image_url r \<noteq> None) \<and>
         (\<not> success r \<longrightarrow> p \<notin> fs') \<and> fs' - {p} = fs - {p}"
  using assms
  by (auto simp: match_uploaded_def Let_def response_defs
      split: represent_result.splits list.splits prod.splits option.splits if_splits)

lemma match_uploaded_no_face:
  assumes "represent X p True = Raises_ValueError e \<or>
           (represent X p True = Returns [] \<and> e = ''No face detected in uploaded image.'')"
  shows "match_uploaded X g fs fn p =
     (could_not_process e, fs - {p}, [(INFO, File_uploaded p), (WARNING, Could_not_process fn)])"
  using assms by (auto simp: match_uploaded_def Let_def)


lemma top_matches_data_length:
  "fst (top_matches_data uf db i xs) = Some ms \<Longrightarrow> length ms = length xs"
proof (induction xs arbitrary: i ms)
  case Nil
  then show ?case by simp
next
  case (Cons x xs)
  obtain j d where x: "x = (j, d)" by (cases x)
  obtain r lg' where rest: "top_matches_data uf db (Suc i) xs = (r, lg')"
    by (cases "top_matches_data uf db (Suc i) xs")
  from Cons.prems x rest obtain m z where "r = Some z" "ms = m # z"
    by (auto simp: Let_def split: option.splits)
  with Cons.IH [of "Suc i" z] rest show ?case by simp
qed



subsection \<open>The comparison loop\<close>

lemma compare_from_fst_Cons:
  "fst (compare_from c q i (e # rest)) =
     (case embedding e of
        None \<Rightarrow> []
      | Some v \<Rightarrow> if length v \<noteq> length q then []
                  else (case c q v of None \<Rightarrow> [] | Some d \<Rightarrow> [(i, d)])) @
     fst (compare_from c q (Suc i) rest)"
  by (simp split: prod.splits option.splits)

lemma compare_from_snd_Cons:
  "snd (compare_from c q i (e # rest)) =
     (case embedding e of
        None \<Rightarrow> [(WARNING, Skip_invalid_embedding i)]
      | Some v \<Rightarrow> if length v \<noteq> length q then [(WARNING, Skip_shape i (length v) (length q))]
                  else (case c q v of None \<Rightarrow> [(ERROR, Distance_error i)] | Some d \<Rightarrow> [])) @
     snd (compare_from c q (Suc i) rest)"
  by (simp split: prod.splits option.splits)

declare compare_from.simps(2) [simp del]

lemma nth_Cons_shift: "i < j \<Longrightarrow> (e # rest) ! (j - i) = rest ! (j - Suc i)"
  by (simp add: nth_Cons' )

lemma compare_from_distance_iff:
  "(j, d) \<in> set (fst (compare_from c q i db)) \<longleftrightarrow>
     i \<le> j \<and> j < i + length db \<and>
     (\<exists>v. embedding (db ! (j - i)) = Some v \<and> length v = length q \<and> c q v = Some d)"
proof (induction db arbitrary: i)
  case Nil
  then show ?case by simp
next
  case (Cons e rest)
  show ?case
  proof (cases "j = i")
    case True
    have ni: "(i, d) \<notin> set (fst (compare_from c q (Suc i) rest))"
      using Cons.IH [of "Suc i"] True by simp
    show ?thesis
    proof (cases "embedding e")
      case None
      with True ni show ?thesis by (simp add: compare_from_fst_Cons)
    next
      case (Some v)
      note emb = this
      show ?thesis
      proof (cases "c q v")
        case None
        with emb True ni show ?thesis by (simp add: compare_from_fst_Cons)
      next
        case (Some d')
        with emb True ni show ?thesis by (auto simp add: compare_from_fst_Cons)
      qed
    qed
  next
    case False
    have "(j, d) \<in> set (fst (compare_from c q i (e # rest))) \<longleftrightarrow>
          (j, d) \<in> set (fst (compare_from c q (Suc i) rest))"
      unfolding compare_from_fst_Cons using False by (auto split: option.splits if_splits)
    also have "\<dots> \<longleftrightarrow> Suc i \<le> j \<and> j < Suc i + length rest \<and>
       (\<exists>v. embedding (rest ! (j - Suc i)) = Some v \<and> length v = length q \<and> c q v = Some d)"
      by (rule Cons.IH)
    also have "\<dots> \<longleftrightarrow> i \<le> j \<and> j < i + length (e # rest) \<and>
       (\<exists>v. embedding ((e # rest) ! (j - i)) = Some v \<and> length v = length q \<and> c q v = Some d)"
    proof (cases "i < j")
      case True
      then show ?thesis using nth_Cons_shift [OF True, of e rest] by auto
    next
      case False
      with \<open>j \<noteq> i\<close> show ?thesis by auto
    qed
    finally show ?thesis .
  qed
qed

lemma compare_from_log_iff:
  "((WARNING, Skip_invalid_embedding j) \<in> set (snd (compare_from c q i db)) \<longleftrightarrow>
      i \<le> j \<and> j < i + length db \<and> embedding (db ! (j - i)) = None) \<and>
   ((WARNING, Skip_shape j m n) \<in> set (snd (compare_from c q i db)) \<longleftrightarrow>
      i \<le> j \<and> j < i + length db \<and>
      (\<exists>v. embedding (db ! (j - i)) = Some v \<and> length v \<noteq> length q \<and>
           m = length v \<and> n = length q)) \<and>
   ((ERROR, Distance_error j) \<in> set (snd (compare_from c q i db)) \<longleftrightarrow>
      i \<le> j \<and> j < i + length db \<and>
      (\<exists>v. embedding (db ! (j - i)) = Some v \<and> length v = length q \<and> c q v = None))"
proof (induction db arbitrary: i)
  case Nil
  then show ?case by simp
next
  case (Cons e rest)
  note IH = Cons.IH [of "Suc i"]
  show ?case
  proof (cases "j = i")
    case True
    with IH show ?thesis
      unfolding compare_from_snd_Cons by (auto split: option.splits)
  next
    case False
    show ?thesis
    proof (cases "i < j")
      case True
      note sh = nth_Cons_shift [OF True, of e rest]
      have 1: "(WARNING, Skip_invalid_embedding j) \<in> set (snd (compare_from c q i (e # rest))) \<longleftrightarrow>
               (WARNING, Skip_invalid_embedding j) \<in> set (snd (compare_from c q (Suc i) rest))"
        unfolding compare_from_snd_Cons using False by (auto split: option.splits if_splits)
      have 2: "(WARNING, Skip_shape j m n) \<in> set (snd (compare_from c q i (e # rest))) \<longleftrightarrow>
               (WARNING, Skip_shape j m n) \<in> set (snd (compare_from c q (Suc i) rest))"
        unfolding compare_from_snd_Cons using False by (auto split: option.splits if_splits)
      have 3: "(ERROR, Distance_error j) \<in> set (snd (compare_from c q i (e # rest))) \<longleftrightarrow>
               (ERROR, Distance_error j) \<in> set (snd (compare_from c q (Suc i) rest))"
        unfolding compare_from_snd_Cons using False by (auto split: option.splits if_splits)
      show ?thesis using IH True unfolding 1 2 3 sh by auto
    next
      case F: False
      with False have lt: "j < i" by simp
      from IH lt have t:
        "(WARNING, Skip_invalid_embedding j) \<notin> set (snd (compare_from c q (Suc i) rest))"
        "(WARNING, Skip_shape j m n) \<notin> set (snd (compare_from c q (Suc i) rest))"
        "(ERROR, Distance_error j) \<notin> set (snd (compare_from c q (Suc i) rest))"
        by auto
      show ?thesis
        unfolding compare_from_snd_Cons using lt t by (auto split: option.splits if_splits)
    qed
  qed
qed


subsection \<open>Stable sorting\<close>





subsection \<open>Paths of the before folder\<close>

lemma path_join_before:
  assumes "CHR ''/'' \<notin> set f"
  shows "path_join BEFORE_FOLDER_NAME f = ''before/'' @ f"
proof -
  from assms have "f = [] \<or> hd f \<noteq> CHR ''/''" by (cases f) auto
  then show ?thesis by (auto simp: path_join_def BEFORE_FOLDER_NAME_def)
qed

lemma basename_path_join_before:
  assumes "CHR ''/'' \<notin> set f"
  shows "basename (path_join BEFORE_FOLDER_NAME f) = f"
proof -
  have "\<And>x. x \<in> set (rev f) \<Longrightarrow> x \<noteq> CHR ''/''"
    using assms by auto
  then have "takeWhile (\<lambda>x. x \<noteq> CHR ''/'') (rev f @ ''/erofeb'') =
      rev f @ takeWhile (\<lambda>x. x \<noteq> CHR ''/'') ''/erofeb''"
    by (rule takeWhile_append2)
  then have "takeWhile (\<lambda>x. x \<noteq> CHR ''/'') (rev f @ ''/erofeb'') = rev f"
    by simp
  then show ?thesis
    by (simp add: path_join_before [OF assms] basename_def after_last_def)
qed

lemma startup_from_cache:
  assumes "before_folder fsys \<noteq> None" and "cache_file fsys = Some bytes"
    and "pickle_load pk bytes = Some db"
  shows "face_database (fst (startup pk rep fsys)) = db \<and>
         database_loaded (fst (startup pk rep fsys)) \<and>
         metadata_mapping (fst (startup pk rep fsys)) = fst (load_metadata (metadata_json fsys))"
  using assms by (auto simp: startup_def Let_def split: option.splits prod.splits)

subsection \<open>The example galleries, evaluated\<close>

lemma example_compare:
  "compare_entries cosine_formula [1, 0] example_database =
     ([(0, Defined 1), (1, Defined 0), (2, Defined 2), (3, Defined 1)], [])"
  by (simp add: compare_entries_def compare_from.simps(2) example_defs)

lemma example_sorted:
  "list_sort float_lt snd [(0 :: nat, Defined 1), (1, Defined 0), (2, Defined 2), (3, Defined 1)] =
     [(1, Defined 0), (0, Defined 1), (3, Defined 1), (2, Defined 2)]"
  by code_simp





lemma match_face_success:
  assumes "database_loaded g" and "face_database g \<noteq> []"
    and "upload_filename file \<noteq> []" and "allowed_file (upload_filename file)"
    and "\<not> save_raises file"
    and "p = path_join UPLOAD_FOLDER (secure_filename X (upload_filename file))"
    and "represent X p True = Returns (emb # others)"
    and "compare_entries (cosine X) emb (face_database g) = (distances, lg1)"
    and "distances \<noteq> []"
    and "fst (top_matches_data (url_for X) (face_database g) 0
           (take (min 3 (length distances)) (list_sort float_lt snd distances))) = Some ms"
    and "url_for X ''uploaded_file'' [secure_filename X (upload_filename file)] = Some u"
  shows "fst (match_face X g fs (Some file)) =
           \<lparr>success = True, message = str_nat (min 3 (length distances)) @ '' matches found.'',
            error_type = None, uploaded_image_url = Some u, matches = Some ms\<rparr> \<and>
         fst (snd (match_face X g fs (Some file))) = insert p fs"
proof -
  obtain lg3 where top: "top_matches_data (url_for X) (face_database g) 0
           (take (min 3 (length distances)) (list_sort float_lt snd distances)) = (Some ms, lg3)"
    using assms(10)
    by (cases "top_matches_data (url_for X) (face_database g) 0
           (take (min 3 (length distances)) (list_sort float_lt snd distances))") auto
  have pos: "0 < length distances" using assms(9) by simp
  show ?thesis
    unfolding match_face_saved [OF assms(1-6)]
    using assms(7,8,9,11) top pos by (simp add: match_uploaded_def Let_def length_list_sort)
qed

lemma example_ready:
  "database_loaded example_globals" "face_database example_globals \<noteq> []"
  by (simp_all add: example_globals_def example_database_def)

lemma example_upload_ok:
  "upload_filename (example_upload ''query.png'') \<noteq> []"
  "allowed_file (upload_filename (example_upload ''query.png''))"
  "\<not> save_raises (example_upload ''query.png'')"
  "''uploads/query.png'' = path_join UPLOAD_FOLDER
      (secure_filename example_externals (upload_filename (example_upload ''query.png'')))"
  "represent example_externals ''uploads/query.png'' True = Returns ([1, 0] # [])"
  by (simp_all add: example_upload_def example_externals_def example_represent_def path_defs)

lemma example_distances:
  "compare_entries (cosine example_externals) [1, 0] (face_database example_globals) =
     ([(0, Defined 1), (1, Defined 0), (2, Defined 2), (3, Defined 1)], [])"
  using example_compare by (simp add: example_externals_def example_globals_def)

lemma example_uploaded_url:
  "url_for example_externals ''uploaded_file''
     [secure_filename example_externals (upload_filename (example_upload ''query.png''))] =
   Some ''/uploads/query.png''"
  by (simp add: example_externals_def example_url_for_def example_upload_def)

lemma example_top:
  "fst (top_matches_data (url_for example_externals) (face_database example_globals) 0
     (take (min 3 (length [(0 :: nat, Defined 1), (1, Defined 0), (2, Defined 2), (3, Defined 1)]))
        (list_sort float_lt snd
           [(0 :: nat, Defined 1), (1, Defined 0), (2, Defined 2), (3, Defined 1)]))) =
   Some [\<lparr>similarity = Defined 1, match_before_url = ''/database_images/before/b.png'',
           match_after_url = None, match_metadata = Some [(''case_id'', ''b'')]\<rparr>,
          \<lparr>similarity = Defined 0, match_before_url = ''/database_images/before/a.png'',
           match_after_url = Some ''/database_images/after/a.png'', match_metadata = None\<rparr>,
          \<lparr>similarity = Defined 0, match_before_url = ''/database_images/before/d.jpg'',
           match_after_url = None, match_metadata = None\<rparr>]"
  unfolding example_sorted
  by (simp add: match_entry_def before_filename_def after_filename_def float_sub_def
      example_defs path_defs Let_def)

lemma example_match:
  "fst (match_face example_externals example_globals {} (Some (example_upload ''query.png''))) =
     \<lparr>success = True, message = ''3 matches found.'', error_type = None,
      uploaded_image_url = Some ''/uploads/query.png'',
      matches = Some
        [\<lparr>similarity = Defined 1, match_before_url = ''/database_images/before/b.png'',
          match_after_url = None, match_metadata = Some [(''case_id'', ''b'')]\<rparr>,
         \<lparr>similarity = Defined 0, match_before_url = ''/database_images/before/a.png'',
          match_after_url = Some ''/database_images/after/a.png'', match_metadata = None\<rparr>,
         \<lparr>similarity = Defined 0, match_before_url = ''/database_images/before/d.jpg'',
          match_after_url = None, match_metadata = None\<rparr>]\<rparr> \<and>
   fst (snd (match_face example_externals example_globals {}
               (Some (example_upload ''query.png'')))) = {''uploads/query.png''}"
  using match_face_success [OF example_ready example_upload_ok example_distances _
      example_top example_uploaded_url, of "{}"]
  by simp














section \<open>The claims\<close>

text \<open>
  C6. Calling \<open>load_database\<close> when the loaded flag is already set changes nothing: the
  database, the metadata mapping, the flag and the files are as before, and the call
  only logs that the database is already loaded.
\<close>

theorem load_database_already_loaded:
  assumes "database_loaded g"
  shows "load_database pk rep g fsys = (g, fsys, [(INFO, Already_loaded)])"
  using assms by (simp add: load_database_def)

theorem load_database_already_loaded_witness:
  "load_database example_pickle example_represent example_globals
     (example_filesystem (Some [''c.png''])) =
   (example_globals, example_filesystem (Some [''c.png'']), [(INFO, Already_loaded)])"
proof -
  have "database_loaded example_globals" by (simp add: example_globals_def)
  then show ?thesis by (rule load_database_already_loaded)
qed

text \<open>
  C8. A build that runs (flag not set, before folder present) always completes and sets
  the loaded flag. Whatever the lenient provider does on each file, the database holds
  one entry for each allowed file on which it returned an embedding, in the folder's
  order and with that embedding, and none for the others; the files it failed on are
  counted as failed in the final log line.
\<close>

theorem load_database_skips_failed_files:
  assumes "\<not> database_loaded g" and "before_folder fsys = Some listing"
  shows "database_loaded (fst (load_database pk rep g fsys)) \<and>
     map before_path (face_database (fst (load_database pk rep g fsys))) =
       map (path_join BEFORE_FOLDER_NAME) (filter (embeds rep) listing) \<and>
     map embedding (face_database (fst (load_database pk rep g fsys))) =
       map (first_embedding rep) (filter (embeds rep) listing) \<and>
     (INFO, Loading_complete (length (filter (embeds rep) listing))
              (length (filter (fails_embedding rep) listing)))
       \<in> set (snd (snd (load_database pk rep g fsys)))"
proof -
  from load_database_build [OF assms, of rep pk]
  obtain fsys' lg db p q lg2 where
    loop: "load_loop rep (files fsys) (fst (load_metadata (metadata_json fsys))) listing
        ([], 0, 0, snd (load_metadata (metadata_json fsys)) @
           [(INFO, Loading_from FULL_BEFORE_FOLDER)]) = (db, p, q, lg2)"
    and res: "load_database pk rep g fsys =
       (g\<lparr>metadata_mapping := fst (load_metadata (metadata_json fsys)), face_database := db,
          database_loaded := True\<rparr>, fsys', lg)"
    and cnt: "(INFO, Loading_complete p q) \<in> set lg"
    by blast
  from load_loop_result [OF loop] cnt res show ?thesis by simp
qed

theorem load_database_skips_failed_files_witness:
  "database_loaded (fst (load_database example_pickle example_represent initial_globals
      (example_filesystem (Some [''a.png'', ''blank.png'', ''notes.txt'', ''broken.png'', ''b.png''])))) \<and>
   map before_path (face_database (fst (load_database example_pickle example_represent
      initial_globals
      (example_filesystem (Some [''a.png'', ''blank.png'', ''notes.txt'', ''broken.png'', ''b.png''])))))
     = [''before/a.png'', ''before/b.png''] \<and>
   (INFO, Loading_complete 2 2) \<in> set (snd (snd (load_database example_pickle example_represent
      initial_globals
      (example_filesystem (Some [''a.png'', ''blank.png'', ''notes.txt'', ''broken.png'', ''b.png''])))))"
proof -
  have h1: "\<not> database_loaded initial_globals" by (simp add: initial_globals_def)
  have h2: "before_folder (example_filesystem
      (Some [''a.png'', ''blank.png'', ''notes.txt'', ''broken.png'', ''b.png''])) =
      Some [''a.png'', ''blank.png'', ''notes.txt'', ''broken.png'', ''b.png'']"
    by (simp add: example_filesystem_def)
  have e: "filter (embeds example_represent)
      [''a.png'', ''blank.png'', ''notes.txt'', ''broken.png'', ''b.png''] = [''a.png'', ''b.png'']"
    by (simp add: embeds_def first_embedding_def example_represent_def path_defs)
  have f: "filter (fails_embedding example_represent)
      [''a.png'', ''blank.png'', ''notes.txt'', ''broken.png'', ''b.png''] =
      [''blank.png'', ''broken.png'']"
    by (simp add: fails_embedding_def first_embedding_def example_represent_def path_defs)
  from load_database_skips_failed_files [OF h1 h2, of example_pickle example_represent]
  show ?thesis unfolding e f by (simp add: path_join_def BEFORE_FOLDER_NAME_def numeral_2_eq_2)
qed


text \<open>
  C9. A match request made while the loaded flag is unset or the database is empty is
  answered with the not-ready response, whose message differs from those of the
  no-match and the compare-error responses; nothing is saved, removed or compared, and
  only the not-ready warning is logged. A build from the initial globals that finds no
  before folder, or no file giving an embedding, leaves the database empty, so requests
  after it get the same answer.
\<close>

theorem match_face_not_ready:
  fixes X :: "cosine_value externals"
  shows "(\<not> database_loaded g \<or> face_database g = [] \<longrightarrow>
            match_face X g fs file_part = (not_ready, fs, [(WARNING, Not_ready)])) \<and>
         message (not_ready :: cosine_value response) \<noteq> message (no_match_found :: cosine_value response) \<and>
         message (not_ready :: cosine_value response) \<noteq> message (compare_error :: cosine_value response) \<and>
         (before_folder fsys = None \<or>
          (\<exists>listing. before_folder fsys = Some listing \<and> (\<forall>f \<in> set listing. \<not> embeds rep f)) \<longrightarrow>
            match_face X (fst (load_database pk rep initial_globals fsys)) fs file_part =
              (not_ready, fs, [(WARNING, Not_ready)]))"
proof -
  have a: "match_face X h fs file_part = (not_ready, fs, [(WARNING, Not_ready)])"
    if "\<not> database_loaded h \<or> face_database h = []" for h
    using that by (auto simp: match_face_def)
  have init: "\<not> database_loaded initial_globals" "face_database initial_globals = []"
    by (simp_all add: initial_globals_def)
  have b: "face_database (fst (load_database pk rep initial_globals fsys)) = []"
    if "before_folder fsys = None"
    using load_database_missing_folder [OF init(1) that, of pk rep] init(2) by simp
  have c: "face_database (fst (load_database pk rep initial_globals fsys)) = []"
    if l: "before_folder fsys = Some listing" and none: "\<forall>f \<in> set listing. \<not> embeds rep f"
    for listing
  proof -
    from load_database_build [OF init(1) l, of rep pk]
    obtain fsys' lg db p q lg2 where
      loop: "load_loop rep (files fsys) (fst (load_metadata (metadata_json fsys))) listing
          ([], 0, 0, snd (load_metadata (metadata_json fsys)) @
             [(INFO, Loading_from FULL_BEFORE_FOLDER)]) = (db, p, q, lg2)"
      and res: "load_database pk rep initial_globals fsys =
         (initial_globals\<lparr>metadata_mapping := fst (load_metadata (metadata_json fsys)),
            face_database := db, database_loaded := True\<rparr>, fsys', lg)"
      by blast
    from none have "filter (embeds rep) listing = []" by (simp add: filter_empty_conv)
    with load_loop_result [OF loop] have "db = []" by simp
    with res show ?thesis by simp
  qed
  have m: "message (not_ready :: cosine_value response) \<noteq> message (no_match_found :: cosine_value response)"
    "message (not_ready :: cosine_value response) \<noteq> message (compare_error :: cosine_value response)"
    by (simp_all add: response_defs)
  from a b c m show ?thesis by blast
qed

theorem match_face_not_ready_witness:
  "match_face example_externals initial_globals {} (Some (example_upload ''query.png'')) =
     (not_ready, {}, [(WARNING, Not_ready)]) \<and>
   match_face example_externals
     (fst (load_database example_pickle example_represent initial_globals
             (example_filesystem (Some [''blank.png'', ''notes.txt'']))))
     {} (Some (example_upload ''query.png'')) = (not_ready, {}, [(WARNING, Not_ready)])"
proof -
  have h1: "\<not> database_loaded initial_globals \<or> face_database initial_globals = []"
    by (simp add: initial_globals_def)
  have h2: "before_folder (example_filesystem (Some [''blank.png'', ''notes.txt''])) = None \<or>
     (\<exists>listing. before_folder (example_filesystem (Some [''blank.png'', ''notes.txt''])) =
         Some listing \<and> (\<forall>f \<in> set listing. \<not> embeds example_represent f))"
    by (simp add: example_filesystem_def embeds_def first_embedding_def example_represent_def
        path_defs)
  from match_face_not_ready [of initial_globals example_externals "{}"
      "Some (example_upload ''query.png'')"
      "example_filesystem (Some [''blank.png'', ''notes.txt''])" example_represent example_pickle]
    h1 h2
  show ?thesis by blast
qed

text \<open>
  C7. When the database is ready and the upload has been saved, a strict-mode call of
  the provider that raises a \<open>ValueError\<close> (no face detected) or returns no embedding
  makes the handler answer with the could-not-process failure carrying the detection
  message. The upload is removed, the log holds only the upload line and the warning,
  and the answer is the same whatever the distance function is: no entry is compared.
\<close>

theorem match_face_no_face_detected:
  fixes X :: "cosine_value externals"
  assumes "database_loaded g" and "face_database g \<noteq> []"
    and "upload_filename file \<noteq> []" and "allowed_file (upload_filename file)"
    and "\<not> save_raises file"
    and "p = path_join UPLOAD_FOLDER (secure_filename X (upload_filename file))"
    and "represent X p True = Raises_ValueError e \<or>
         (represent X p True = Returns [] \<and> e = ''No face detected in uploaded image.'')"
  shows "\<forall>c. match_face (X\<lparr>cosine := c\<rparr>) g fs (Some file) =
     (could_not_process e, fs - {p},
      [(INFO, File_uploaded p),
       (WARNING, Could_not_process (secure_filename X (upload_filename file)))])"
proof
  fix c :: "real list \<Rightarrow> real list \<Rightarrow> cosine_value option"
  let ?X = "X\<lparr>cosine := c\<rparr>"
  have p: "p = path_join UPLOAD_FOLDER (secure_filename ?X (upload_filename file))"
    using assms(6) by simp
  have r: "represent ?X p True = Raises_ValueError e \<or>
         (represent ?X p True = Returns [] \<and> e = ''No face detected in uploaded image.'')"
    using assms(7) by simp
  from match_face_saved [OF assms(1-5) p, of fs] match_uploaded_no_face [OF r]
  show "match_face ?X g fs (Some file) =
     (could_not_process e, fs - {p},
      [(INFO, File_uploaded p),
       (WARNING, Could_not_process (secure_filename X (upload_filename file)))])"
    by simp
qed

theorem match_face_no_face_detected_witness:
  "match_face (example_externals\<lparr>cosine := (\<lambda>u v. None)\<rparr>) example_globals {}
     (Some (example_upload ''blank.png'')) =
   (could_not_process ''Face could not be detected.'', {},
    [(INFO, File_uploaded ''uploads/blank.png''), (WARNING, Could_not_process ''blank.png'')])"
proof -
  have h1: "database_loaded example_globals" "face_database example_globals \<noteq> []"
    by (simp_all add: example_globals_def example_database_def)
  have h2: "upload_filename (example_upload ''blank.png'') \<noteq> []"
    "allowed_file (upload_filename (example_upload ''blank.png''))"
    "\<not> save_raises (example_upload ''blank.png'')"
    by (simp_all add: example_upload_def path_defs)
  have h3: "''uploads/blank.png'' = path_join UPLOAD_FOLDER
      (secure_filename example_externals (upload_filename (example_upload ''blank.png'')))"
    by (simp add: example_upload_def example_externals_def path_defs)
  have h4: "represent example_externals ''uploads/blank.png'' True =
      Raises_ValueError ''Face could not be detected.'' \<or>
      (represent example_externals ''uploads/blank.png'' True = Returns [] \<and>
       ''Face could not be detected.'' = ''No face detected in uploaded image.'')"
    by (simp add: example_externals_def example_represent_def path_defs)
  from match_face_no_face_detected [OF h1 h2 h3 h4, of "{}"]
  show ?thesis by (simp add: example_upload_def example_externals_def)
qed

text \<open>
  C10. Once the handler has saved the upload, the upload is still in the upload folder
  afterwards exactly when the response is a success, which then carries its URL; with
  every failure response the file has been removed. No other path is touched.
\<close>

theorem match_face_upload_cleanup:
  fixes X :: "cosine_value externals"
  assumes "database_loaded g" and "face_database g \<noteq> []"
    and "upload_filename file \<noteq> []" and "allowed_file (upload_filename file)"
    and "\<not> save_raises file"
    and "p = path_join UPLOAD_FOLDER (secure_filename X (upload_filename file))"
    and "match_face X g fs (Some file) = (r, fs', lg)"
  shows "(success r \<longrightarrow> p \<in> fs' \<and> uploaded_image_url r \<noteq> None) \<and>
         (\<not> success r \<longrightarrow> p \<notin> fs') \<and> fs' - {p} = fs - {p}"
proof -
  from match_face_saved [OF assms(1-6), of fs] assms(7)
  have "match_uploaded X g (insert p fs) (secure_filename X (upload_filename file)) p =
          (r, fs', lg)"
    by simp
  then show ?thesis by (rule match_uploaded_cleanup)
qed


theorem match_face_upload_cleanup_witness:
  "''uploads/query.png'' \<in>
     fst (snd (match_face example_externals example_globals {}
                 (Some (example_upload ''query.png'')))) \<and>
   uploaded_image_url (fst (match_face example_externals example_globals {}
                 (Some (example_upload ''query.png'')))) = Some ''/uploads/query.png'' \<and>
   ''uploads/blank.png'' \<notin>
     fst (snd (match_face example_externals example_globals {''uploads/blank.png''}
                 (Some (example_upload ''blank.png''))))"
proof -
  obtain r fs' lg where res: "match_face example_externals example_globals {}
      (Some (example_upload ''query.png'')) = (r, fs', lg)"
    by (rule prod_cases3)
  from match_face_upload_cleanup [OF example_ready example_upload_ok(1-4) res] res example_match
  have a: "''uploads/query.png'' \<in> fs'" "uploaded_image_url r = Some ''/uploads/query.png''"
    by simp_all
  obtain r2 fs2 lg2 where res2: "match_face example_externals example_globals
      {''uploads/blank.png''} (Some (example_upload ''blank.png'')) = (r2, fs2, lg2)"
    by (rule prod_cases3)
  have h2: "upload_filename (example_upload ''blank.png'') \<noteq> []"
    "allowed_file (upload_filename (example_upload ''blank.png''))"
    "\<not> save_raises (example_upload ''blank.png'')"
    "''uploads/blank.png'' = path_join UPLOAD_FOLDER
      (secure_filename example_externals (upload_filename (example_upload ''blank.png'')))"
    by (simp_all add: example_upload_def example_externals_def path_defs)
  have "\<not> success r2"
    using res2
    by (auto simp: match_face_def match_uploaded_def example_defs path_defs Let_def response_defs)
  with match_face_upload_cleanup [OF example_ready h2 res2]
  have b: "''uploads/blank.png'' \<notin> fs2" by simp
  from a b res res2 show ?thesis by simp
qed

text \<open>
  C3, as stated, fails: the comparison loop has no test for a zero vector. An entry
  whose stored embedding is the zero vector of the query's shape is not skipped and no
  warning is logged; the cosine formula is applied to it and gives an undefined value,
  which is appended to the distances.
\<close>

theorem zero_embedding_is_compared:
  "compare_entries cosine_formula [1, 0]
     [\<lparr>before_path = ''before/z.png'', after_path = None, embedding = Some [0, 0],
       metadata = None\<rparr>] =
   ([(0, Undefined)], [])"
  by (simp add: compare_entries_def compare_from.simps(2) cosine_formula_def dot_def)

text \<open>
  C3, amended. An entry is skipped with a logged warning exactly when its embedding is
  missing or not an array, or has another shape than the query's. The distance function
  is applied to every other entry, a zero vector of the query's shape included: the
  entry is in the distances exactly with the value the distance function returns, and is
  left out with a logged error exactly when the distance function raises.
\<close>

theorem compare_entries_guards:
  "((j, d) \<in> set (fst (compare_entries c q db)) \<longleftrightarrow>
      j < length db \<and>
      (\<exists>v. embedding (db ! j) = Some v \<and> length v = length q \<and> c q v = Some d)) \<and>
   ((WARNING, Skip_invalid_embedding j) \<in> set (snd (compare_entries c q db)) \<longleftrightarrow>
      j < length db \<and> embedding (db ! j) = None) \<and>
   ((WARNING, Skip_shape j m n) \<in> set (snd (compare_entries c q db)) \<longleftrightarrow>
      j < length db \<and>
      (\<exists>v. embedding (db ! j) = Some v \<and> length v \<noteq> length q \<and> m = length v \<and> n = length q)) \<and>
   ((ERROR, Distance_error j) \<in> set (snd (compare_entries c q db)) \<longleftrightarrow>
      j < length db \<and>
      (\<exists>v. embedding (db ! j) = Some v \<and> length v = length q \<and> c q v = None)) \<and>
   (j < length db \<and> embedding (db ! j) = Some (replicate (length q) 0) \<and>
    c q (replicate (length q) 0) = Some d \<longrightarrow>
      (j, d) \<in> set (fst (compare_entries c q db)))"
proof -
  have a: "(j, d) \<in> set (fst (compare_entries c q db)) \<longleftrightarrow>
      j < length db \<and>
      (\<exists>v. embedding (db ! j) = Some v \<and> length v = length q \<and> c q v = Some d)"
    using compare_from_distance_iff [of j d c q 0 db] by (simp add: compare_entries_def)
  have b: "((WARNING, Skip_invalid_embedding j) \<in> set (snd (compare_entries c q db)) \<longleftrightarrow>
      j < length db \<and> embedding (db ! j) = None) \<and>
   ((WARNING, Skip_shape j m n) \<in> set (snd (compare_entries c q db)) \<longleftrightarrow>
      j < length db \<and>
      (\<exists>v. embedding (db ! j) = Some v \<and> length v \<noteq> length q \<and> m = length v \<and> n = length q)) \<and>
   ((ERROR, Distance_error j) \<in> set (snd (compare_entries c q db)) \<longleftrightarrow>
      j < length db \<and>
      (\<exists>v. embedding (db ! j) = Some v \<and> length v = length q \<and> c q v = None))"
    using compare_from_log_iff [of j c q 0 db m n] by (simp add: compare_entries_def)
  have z: "j < length db \<and> embedding (db ! j) = Some (replicate (length q) 0) \<and>
    c q (replicate (length q) 0) = Some d \<longrightarrow>
      (j, d) \<in> set (fst (compare_entries c q db))"
    unfolding a by simp
  from a b z show ?thesis by simp
qed

theorem compare_entries_guards_witness:
  "(0, Undefined) \<in> set (fst (compare_entries cosine_formula [1, 0]
     [\<lparr>before_path = ''before/z.png'', after_path = None, embedding = Some [0, 0],
       metadata = None\<rparr>]))"
proof -
  have "replicate (length [1, 0 :: real]) (0 :: real) = [0, 0]"
    by (simp add: numeral_2_eq_2)
  with compare_entries_guards [of 0 Undefined cosine_formula "[1, 0]"
      "[\<lparr>before_path = ''before/z.png'', after_path = None, embedding = Some [0, 0],
         metadata = None\<rparr>]" 0 0]
  show ?thesis by (simp add: cosine_formula_def dot_def)
qed

text \<open>
  C2, as stated, fails: two images of the before folder that differ only in their
  extension give two records with the same identifier.
\<close>

theorem same_stem_same_identifier:
  "map record_identifier
     (face_database (fst (load_database example_pickle (\<lambda>img_path enforce. Returns [[1, 0]])
        initial_globals (example_filesystem (Some [''a.png'', ''a.jpg''])))))
   = [''a'', ''a'']"
  by (simp add: load_database_def load_metadata_def process_file_def
      find_corresponding_after_image_def record_identifier_def initial_globals_def
      example_filesystem_def example_pickle_def path_defs Let_def)

text \<open>
  C2, amended. For a before folder whose listing has no repeated name (and, as a
  listing, no name with a slash), the records of the built database have pairwise
  different before paths, and the identifier of each record is the name of its file
  without the extension. The identifiers are pairwise different exactly when no two of
  the embedded files have the same name up to the extension.
\<close>

theorem load_database_identifiers:
  assumes "\<not> database_loaded g" and "before_folder fsys = Some listing"
    and "distinct listing" and "\<forall>f \<in> set listing. CHR ''/'' \<notin> set f"
  shows "distinct (map before_path (face_database (fst (load_database pk rep g fsys)))) \<and>
     map record_identifier (face_database (fst (load_database pk rep g fsys))) =
       map (\<lambda>f. fst (splitext f)) (filter (embeds rep) listing) \<and>
     (distinct (map record_identifier (face_database (fst (load_database pk rep g fsys)))) \<longleftrightarrow>
      inj_on (\<lambda>f. fst (splitext f)) (set (filter (embeds rep) listing)))"
proof -
  let ?db = "face_database (fst (load_database pk rep g fsys))"
  let ?ok = "filter (embeds rep) listing"
  from load_database_build [OF assms(1,2), of rep pk]
  obtain fsys' lg db p q lg2 where
    loop: "load_loop rep (files fsys) (fst (load_metadata (metadata_json fsys))) listing
        ([], 0, 0, snd (load_metadata (metadata_json fsys)) @
           [(INFO, Loading_from FULL_BEFORE_FOLDER)]) = (db, p, q, lg2)"
    and res: "load_database pk rep g fsys =
       (g\<lparr>metadata_mapping := fst (load_metadata (metadata_json fsys)), face_database := db,
          database_loaded := True\<rparr>, fsys', lg)"
    by blast
  from load_loop_result [OF loop] res
  have paths: "map before_path ?db = map (path_join BEFORE_FOLDER_NAME) ?ok"
    by simp
  have ns: "CHR ''/'' \<notin> set f" if "f \<in> set ?ok" for f
    using that assms(4) by simp
  have paths': "map before_path ?db = map (\<lambda>f. ''before/'' @ f) ?ok"
    unfolding paths using ns by (simp add: path_join_before)
  have d: "distinct ?ok" using assms(3) by simp
  have 1: "distinct (map before_path ?db)"
    unfolding paths' using d by (simp add: distinct_map inj_on_def)
  have "map record_identifier ?db = map (\<lambda>p. fst (splitext (basename p))) (map before_path ?db)"
    by (simp add: record_identifier_def comp_def)
  also have "\<dots> = map (\<lambda>f. fst (splitext (basename (path_join BEFORE_FOLDER_NAME f)))) ?ok"
    unfolding paths by (simp add: comp_def)
  also have "\<dots> = map (\<lambda>f. fst (splitext f)) ?ok"
    using ns by (simp add: basename_path_join_before)
  finally have 2: "map record_identifier ?db = map (\<lambda>f. fst (splitext f)) ?ok" .
  have 3: "distinct (map record_identifier ?db) \<longleftrightarrow> inj_on (\<lambda>f. fst (splitext f)) (set ?ok)"
    unfolding 2 using d by (simp add: distinct_map)
  from 1 2 3 show ?thesis by simp
qed

theorem load_database_identifiers_witness:
  "map record_identifier
     (face_database (fst (load_database example_pickle example_represent initial_globals
        (example_filesystem (Some [''a.png'', ''blank.png'', ''b.png''])))))
   = [''a'', ''b'']"
proof -
  have h1: "\<not> database_loaded initial_globals" by (simp add: initial_globals_def)
  have h2: "before_folder (example_filesystem (Some [''a.png'', ''blank.png'', ''b.png''])) =
      Some [''a.png'', ''blank.png'', ''b.png'']"
    by (simp add: example_filesystem_def)
  have h3: "distinct [''a.png'', ''blank.png'', ''b.png'']" by simp
  have h4: "\<forall>f \<in> set [''a.png'', ''blank.png'', ''b.png'']. CHR ''/'' \<notin> set f" by simp
  have e: "filter (embeds example_represent) [''a.png'', ''blank.png'', ''b.png''] =
      [''a.png'', ''b.png'']"
    by (simp add: embeds_def first_embedding_def example_represent_def path_defs)
  from load_database_identifiers [OF h1 h2 h3 h4, of example_pickle example_represent]
  show ?thesis unfolding e by (simp add: path_defs)
qed

text \<open>
  C5. Taking the pickle library to load what it dumped, a build whose cache write
  succeeds leaves in the cache file the dump of the whole database it built, and a
  start-up on the files it leaves installs exactly that database, entry for entry
  (paths, embeddings and metadata), and sets the loaded flag.
\<close>

theorem snapshot_round_trip:
  assumes "\<forall>db bytes. pickle_dump pk db = Dumped bytes \<longrightarrow> pickle_load pk bytes = Some db"
    and "\<not> database_loaded g" and "before_folder fsys = Some listing"
    and "pickle_dump pk (face_database (fst (load_database pk rep g fsys))) = Dumped bytes"
  shows "cache_file (fst (snd (load_database pk rep g fsys))) = Some bytes \<and>
         face_database (fst (startup pk rep' (fst (snd (load_database pk rep g fsys))))) =
           face_database (fst (load_database pk rep g fsys)) \<and>
         database_loaded (fst (startup pk rep' (fst (snd (load_database pk rep g fsys)))))"
proof -
  from load_database_build [OF assms(2,3), of rep pk]
  obtain fsys' lg db where
    res: "load_database pk rep g fsys =
       (g\<lparr>metadata_mapping := fst (load_metadata (metadata_json fsys)), face_database := db,
          database_loaded := True\<rparr>, fsys', lg)"
    and fs': "fsys' = (case pickle_dump pk db of
                        Dumped bytes \<Rightarrow> fsys\<lparr>cache_file := Some bytes\<rparr>
                      | Dump_raises partial \<Rightarrow> fsys\<lparr>cache_file := Some partial\<rparr>
                      | Open_raises \<Rightarrow> fsys)"
    by blast
  from assms(4) res have dump: "pickle_dump pk db = Dumped bytes"
    by simp
  with fs' have fs'': "fsys' = fsys\<lparr>cache_file := Some bytes\<rparr>" by simp
  from assms(1) dump have load: "pickle_load pk bytes = Some db" by blast
  have "before_folder fsys' \<noteq> None" "cache_file fsys' = Some bytes"
    using fs'' assms(3) by simp_all
  from startup_from_cache [OF this load, of rep'] res dump fs'' show ?thesis by simp
qed

theorem snapshot_round_trip_witness:
  "map before_path (face_database (fst (startup example_pickle example_represent
      (fst (snd (load_database example_pickle example_represent initial_globals
         (example_filesystem (Some [''a.png'', ''b.png'']))))))))
   = [''before/a.png'', ''before/b.png'']"
proof -
  have h1: "\<forall>db bytes. pickle_dump example_pickle db = Dumped bytes \<longrightarrow>
      pickle_load example_pickle bytes = Some db"
    by (simp add: example_pickle_def)
  have h2: "\<not> database_loaded initial_globals" by (simp add: initial_globals_def)
  have h3: "before_folder (example_filesystem (Some [''a.png'', ''b.png''])) =
      Some [''a.png'', ''b.png'']"
    by (simp add: example_filesystem_def)
  have h4: "pickle_dump example_pickle (face_database (fst (load_database example_pickle
      example_represent initial_globals (example_filesystem (Some [''a.png'', ''b.png''])))))
      = Dumped (face_database (fst (load_database example_pickle
      example_represent initial_globals (example_filesystem (Some [''a.png'', ''b.png''])))))"
    by (simp add: example_pickle_def)
  have e: "filter (embeds example_represent) [''a.png'', ''b.png''] = [''a.png'', ''b.png'']"
    by (simp add: embeds_def first_embedding_def example_represent_def path_defs)
  have b: "map before_path (face_database (fst (load_database example_pickle
      example_represent initial_globals (example_filesystem (Some [''a.png'', ''b.png''])))))
      = [''before/a.png'', ''before/b.png'']"
    unfolding load_database_paths [OF h2 h3] e by (simp add: path_defs)
  from snapshot_round_trip [OF h1 h2 h3 h4, of example_represent] b
  show ?thesis by simp
qed








end
